theory Spec2Isabelle
  imports Complex_Main "HOL-Library.AList" "HOL-Library.Sublist" "HOL-Library.Multiset"
begin

section \<open>The prediction page of app.py\<close>

text \<open>
  The development follows \<^verbatim>\<open>src/app.py\<close>: the ranking and risk labelling of the
  prediction page (lines 159 to 189) come first.

  Scores are the values \<^verbatim>\<open>model.predict(input_df)[0]\<close>, finite floating point numbers
  that the page only compares with each other and with the constants 80 and 150. They are
  modelled as \<^typ>\<open>real\<close>; a NaN score is outside the model.
\<close>

subsection \<open>Risk labels and alerts\<close>

text \<open>The three label strings of lines 168, 171 and 174.\<close>

datatype risk = High | Moderate | Low

text \<open>
  The three banners of lines 180 to 189: \<^verbatim>\<open>st.warning\<close> with the "Breaking Alert" text,
  \<^verbatim>\<open>st.warning\<close> with the "Moderate-risk" text, \<^verbatim>\<open>st.success\<close> with the
  "Situation Stable" text.
\<close>

datatype banner = High_alert | Moderate_alert | Stable_notice

text \<open>What the page writes, in the order it writes it.\<close>

datatype ui_event =
    St_header
  | St_error string
  | St_markdown_intro
  | St_selectbox string "string list"
  | St_slider
  | St_button
  | St_subheader_top5
  | St_rank_line nat string risk
  | St_alert banner
  | St_actions

text \<open>
  The body of the loop of lines 166 to 175 on one score: the label it shows and the two
  flags \<^verbatim>\<open>high_risk_detected\<close> and \<^verbatim>\<open>moderate_risk_detected\<close> after it.
\<close>

definition risk_step :: "real \<Rightarrow> bool \<times> bool \<Rightarrow> risk \<times> bool \<times> bool" where
  "risk_step score flags =
     (case flags of (high_risk_detected, moderate_risk_detected) \<Rightarrow>
        if score > 150 then (High, True, moderate_risk_detected)
        else if score > 80 then (Moderate, high_risk_detected, True)
        else (Low, high_risk_detected, moderate_risk_detected))"

definition classify :: "real \<Rightarrow> risk" where
  "classify score = fst (risk_step score (False, False))"

text \<open>
  The loop \<^verbatim>\<open>for i, (crime, score) in enumerate(top5, start=1)\<close>: the lines written and
  the flags at its end.
\<close>

fun label_loop ::
  "nat \<Rightarrow> (string \<times> real) list \<Rightarrow> bool \<times> bool \<Rightarrow> ui_event list \<times> bool \<times> bool" where
  "label_loop i [] flags = ([], flags)"
| "label_loop i ((crime, score) # rest) flags =
     (case risk_step score flags of (risk, flags') \<Rightarrow>
        (case label_loop (Suc i) rest flags' of (lines, flags'') \<Rightarrow>
           (St_rank_line i crime risk # lines, flags'')))"

text \<open>The \<^verbatim>\<open>if\<close>/\<^verbatim>\<open>elif\<close>/\<^verbatim>\<open>else\<close> of lines 180 to 189.\<close>

definition alert_of :: "bool \<times> bool \<Rightarrow> banner" where
  "alert_of flags =
     (case flags of (high_risk_detected, moderate_risk_detected) \<Rightarrow>
        if high_risk_detected then High_alert
        else if moderate_risk_detected then Moderate_alert
        else Stable_notice)"

subsection \<open>Ranking\<close>

text \<open>
  Python's \<^verbatim>\<open>sorted(xs, key=key, reverse=reverse)\<close>. The sort is stable; with
  \<^verbatim>\<open>reverse=True\<close> the list is reversed, sorted stably in ascending order and reversed
  again, so that equal keys keep the order of the input. \<^const>\<open>sort_key\<close> is the stable
  insertion sort of the library.
\<close>

definition sorted_py :: "('a \<Rightarrow> 'k::linorder) \<Rightarrow> bool \<Rightarrow> 'a list \<Rightarrow> 'a list" where
  "sorted_py key reverse xs =
     (if reverse then rev (sort_key key (rev xs)) else sort_key key xs)"

text \<open>Line 159: \<^verbatim>\<open>top5 = sorted(results, key=lambda x: x[1], reverse=True)[:5]\<close>.\<close>

definition rank :: "(string \<times> real) list \<Rightarrow> (string \<times> real) list" where
  "rank results = take 5 (sorted_py snd True results)"

text \<open>Lines 161 to 198: everything the page writes once \<^verbatim>\<open>top5\<close> is known.\<close>

definition render_top5 :: "(string \<times> real) list \<Rightarrow> ui_event list" where
  "render_top5 top5 =
     (case label_loop 1 top5 (False, False) of (lines, flags) \<Rightarrow>
        [St_subheader_top5] @ lines @ [St_alert (alert_of flags), St_actions])"

text \<open>The banners among the events written.\<close>

fun alerts_emitted :: "ui_event list \<Rightarrow> banner list" where
  "alerts_emitted [] = []"
| "alerts_emitted (St_alert b # evs) = b # alerts_emitted evs"
| "alerts_emitted (_ # evs) = alerts_emitted evs"

text \<open>The risk labels among the lines written.\<close>

fun labels_shown :: "ui_event list \<Rightarrow> risk list" where
  "labels_shown [] = []"
| "labels_shown (St_rank_line i crime risk # evs) = risk # labels_shown evs"
| "labels_shown (_ # evs) = labels_shown evs"

text \<open>The banner the flags of the labelling loop select, for any list of scored crime types.\<close>

definition alert_for :: "(string \<times> real) list \<Rightarrow> banner" where
  "alert_for scored = alert_of (snd (label_loop 1 scored (False, False)))"


subsection \<open>Feature rows\<close>

text \<open>
  A cell of the one-row table \<^verbatim>\<open>input_df\<close>: a string label, an integer (the year, a
  label's code) or a number (a default).
\<close>

datatype cell = CStr string | CInt int | CNum real

text \<open>
  The exceptions the prediction loop can raise: \<^verbatim>\<open>KeyError\<close> from a dictionary or a
  column lookup, with the names not found; \<^verbatim>\<open>ValueError\<close> from
  \<^verbatim>\<open>LabelEncoder.transform\<close>, with the unseen label; an exception of
  \<^verbatim>\<open>model.predict\<close>.
\<close>

datatype error = KeyError "string list" | ValueError cell | PredictError string

text \<open>
  The one-row \<^verbatim>\<open>DataFrame\<close>: its columns in order, each with its only value.
  \<^verbatim>\<open>input_df[col] = val\<close> is \<^const>\<open>AList.update\<close>: it replaces the value of an
  existing column in place and appends a new column at the end. The dictionary
  \<^verbatim>\<open>DEFAULTS\<close> is the list of its items in iteration order.
\<close>

type_synonym frame = "(string \<times> cell) list"

text \<open>Lines 137 to 145: the base input, then the loop over \<^verbatim>\<open>DEFAULTS.items()\<close>.\<close>

definition build :: "string \<Rightarrow> string \<Rightarrow> string \<Rightarrow> int \<Rightarrow> frame \<Rightarrow> frame" where
  "build state category crime_type year DEFAULTS =
     fold (\<lambda>(col, val) input_df. AList.update col val input_df) DEFAULTS
       [(''state'', CStr state), (''category'', CStr category),
        (''type'', CStr crime_type), (''year'', CInt year)]"

subsection \<open>Encoding\<close>

text \<open>
  An encoder is a fitted \<^verbatim>\<open>LabelEncoder\<close> of the file \<^verbatim>\<open>label_encoders.pkl\<close>. The file
  is not part of the sources, so what it holds is a parameter: the labels of
  \<^verbatim>\<open>classes_\<close> in order, and the dtype of that array. The dtype is \<^verbatim>\<open>object\<close> or a text
  dtype of a fixed number of characters (\<^verbatim>\<open><U5\<close> has five). A label is a string with
  one \<^typ>\<open>char\<close> for each character.
\<close>

datatype dtype = Object_dtype | Text_dtype nat "real \<Rightarrow> string"

record encoder =
  classes :: "string list"
  classes_dtype :: dtype

text \<open>The decimal text of an integer, as \<^verbatim>\<open>str\<close> gives it.\<close>

fun nat_text :: "nat \<Rightarrow> string" where
  "nat_text n =
     (if n < 10 then [''0123456789'' ! n]
      else nat_text (n div 10) @ [''0123456789'' ! (n mod 10)])"

declare nat_text.simps [simp del]

definition int_text :: "int \<Rightarrow> string" where
  "int_text i = (if i < 0 then CHR ''-'' # nat_text (nat (- i)) else nat_text (nat i))"

text \<open>
  The first step of \<^verbatim>\<open>LabelEncoder.transform\<close>,
  \<^verbatim>\<open>column_or_1d(y, dtype=self.classes_.dtype)\<close>: the value is converted to the dtype of
  \<^verbatim>\<open>classes_\<close>. The dtype \<^verbatim>\<open>object\<close> keeps the value as it is. A text dtype of
  \<open>n\<close> characters turns the value into its text and keeps the first \<open>n\<close> characters of
  it. The text of a float is not modelled: it is the function the dtype carries.
\<close>

fun astype :: "dtype \<Rightarrow> cell \<Rightarrow> cell" where
  "astype Object_dtype y = y"
| "astype (Text_dtype n float_text) (CStr s) = CStr (take n s)"
| "astype (Text_dtype n float_text) (CInt i) = CStr (take n (int_text i))"
| "astype (Text_dtype n float_text) (CNum x) = CStr (take n (float_text x))"

text \<open>A string that a dtype holds unchanged: any string for \<^verbatim>\<open>object\<close>, a string of at
  most \<open>n\<close> characters for a text dtype of \<open>n\<close> characters.\<close>

fun fits :: "dtype \<Rightarrow> string \<Rightarrow> bool" where
  "fits Object_dtype s = True"
| "fits (Text_dtype n float_text) s = (length s \<le> n)"

text \<open>
  The second step, the table \<^verbatim>\<open>{val: i for i, val in enumerate(uniques)}\<close>: a label
  gives its position in \<^verbatim>\<open>classes_\<close>, the last one should it occur twice.
\<close>

definition map_to_integer :: "string list \<Rightarrow> string \<rightharpoonup> nat" where
  "map_to_integer uniques = map_of (rev (zip uniques [0..<length uniques]))"

text \<open>
  \<^verbatim>\<open>LabelEncoder.transform\<close> on a column of one value: the value is converted to the
  dtype of \<^verbatim>\<open>classes_\<close> and looked up in the table; a lookup that fails raises
  \<^verbatim>\<open>ValueError\<close> (previously unseen labels) with the converted value. A value that is not
  a string after the conversion is no key of the table.
\<close>

definition transform :: "encoder \<Rightarrow> cell \<Rightarrow> error + cell" where
  "transform enc y =
     (let v = astype (classes_dtype enc) y in
      case v of
        CStr label \<Rightarrow>
          (case map_to_integer (classes enc) label of
             Some i \<Rightarrow> Inr (CInt (int i))
           | None \<Rightarrow> Inl (ValueError v))
      | _ \<Rightarrow> Inl (ValueError v))"

text \<open>
  The dictionary \<^verbatim>\<open>encoders\<close>: a feature name gives its encoder.
  \<^verbatim>\<open>encoders[feature]\<close> raises \<^verbatim>\<open>KeyError\<close> when the dictionary has no such encoder.
\<close>

type_synonym encoder_bank = "string \<rightharpoonup> encoder"

text \<open>Lines 147 to 149, one line each:
  \<^verbatim>\<open>input_df[f] = encoders[f].transform(input_df[f])\<close>.\<close>

definition encode_col :: "encoder_bank \<Rightarrow> string \<Rightarrow> frame \<Rightarrow> error + frame" where
  "encode_col encoders feature input_df =
     (case encoders feature of
        None \<Rightarrow> Inl (KeyError [feature])
      | Some enc \<Rightarrow>
          (case map_of input_df feature of
             None \<Rightarrow> Inl (KeyError [feature])
           | Some y \<Rightarrow>
               (case transform enc y of
                  Inl e \<Rightarrow> Inl e
                | Inr code \<Rightarrow> Inr (AList.update feature code input_df))))"

subsection \<open>Feature alignment\<close>

text \<open>
  Line 151: \<^verbatim>\<open>input_df[model.feature_name_]\<close>. Selecting a list of columns gives them in
  the order of the list and raises \<^verbatim>\<open>KeyError\<close> with the names that are not columns.
\<close>

definition align :: "frame \<Rightarrow> string list \<Rightarrow> error + frame" where
  "align input_df names =
     (let missing = filter (\<lambda>n. map_of input_df n = None) names in
      if missing = [] then Inr (map (\<lambda>n. (n, the (map_of input_df n))) names)
      else Inl (KeyError missing))"

subsection \<open>The prediction loop\<close>

text \<open>
  The loaded model: \<^verbatim>\<open>feature_name_\<close>, and \<^verbatim>\<open>predict(input_df)[0]\<close> as a function of
  the aligned row that gives the score or raises.
\<close>

record model =
  feature_name :: "string list"
  predict :: "frame \<Rightarrow> error + real"

text \<open>Lines 136 to 154: the body of the loop for one crime type.\<close>

definition score_candidate ::
  "model \<Rightarrow> encoder_bank \<Rightarrow> frame \<Rightarrow> string \<Rightarrow> string \<Rightarrow> int \<Rightarrow> string \<Rightarrow> error + (string \<times> real)" where
  "score_candidate model encoders DEFAULTS state category year crime_type =
     (case encode_col encoders ''state'' (build state category crime_type year DEFAULTS) of
        Inl e \<Rightarrow> Inl e
      | Inr df1 \<Rightarrow>
     (case encode_col encoders ''category'' df1 of
        Inl e \<Rightarrow> Inl e
      | Inr df2 \<Rightarrow>
     (case encode_col encoders ''type'' df2 of
        Inl e \<Rightarrow> Inl e
      | Inr df3 \<Rightarrow>
     (case align df3 (feature_name model) of
        Inl e \<Rightarrow> Inl e
      | Inr df4 \<Rightarrow>
     (case predict model df4 of
        Inl e \<Rightarrow> Inl e
      | Inr pred \<Rightarrow> Inr (crime_type, pred))))))"

text \<open>
  Lines 135 to 154: \<^verbatim>\<open>for crime_type in crime_types\<close>, appending to \<^verbatim>\<open>results\<close>. An
  exception of the body leaves the loop and the page.
\<close>

fun prediction_loop ::
  "(string \<Rightarrow> error + (string \<times> real)) \<Rightarrow> string list \<Rightarrow> (string \<times> real) list
     \<Rightarrow> error + (string \<times> real) list" where
  "prediction_loop body [] results = Inr results"
| "prediction_loop body (crime_type # rest) results =
     (case body crime_type of
        Inl e \<Rightarrow> Inl e
      | Inr r \<Rightarrow> prediction_loop body rest (results @ [r]))"

text \<open>How a run of the page ends: at its last line, at \<^verbatim>\<open>st.stop()\<close>, or at an exception.\<close>

datatype outcome = Finished | Stopped | Raised error

text \<open>
  Lines 131 to 198, the block under the button: the outcome and the events it writes.
\<close>

definition predict_clicked ::
  "model \<Rightarrow> encoder_bank \<Rightarrow> frame \<Rightarrow> string \<Rightarrow> string \<Rightarrow> int \<Rightarrow> outcome \<times> ui_event list" where
  "predict_clicked model encoders DEFAULTS state category year =
     (case encoders ''type'' of
        None \<Rightarrow> (Raised (KeyError [''type'']), [])
      | Some type_encoder \<Rightarrow>
          (case prediction_loop (score_candidate model encoders DEFAULTS state category year)
                  (classes type_encoder) [] of
             Inl e \<Rightarrow> (Raised e, [])
           | Inr results \<Rightarrow> (Finished, render_top5 (rank results))))"


subsection \<open>Artifact files and their loaders\<close>

text \<open>
  Lines 20 to 23. \<^verbatim>\<open>BASE_DIR\<close> is the directory of the script, a parameter here;
  \<^verbatim>\<open>os.path.join\<close> is the POSIX one.
\<close>

definition path_join :: "string \<Rightarrow> string \<Rightarrow> string" where
  "path_join a b =
     (if b \<noteq> [] \<and> hd b = CHR ''/'' then b
      else if a = [] \<or> last a = CHR ''/'' then a @ b
      else a @ ''/'' @ b)"

definition MODEL_PATH :: "string \<Rightarrow> string" where
  "MODEL_PATH BASE_DIR = path_join BASE_DIR ''crime_model.pkl''"

definition ENCODER_PATH :: "string \<Rightarrow> string" where
  "ENCODER_PATH BASE_DIR = path_join BASE_DIR ''label_encoders.pkl''"

definition DEFAULT_PATH :: "string \<Rightarrow> string" where
  "DEFAULT_PATH BASE_DIR = path_join BASE_DIR ''defaults.pkl''"

text \<open>The warning sign that starts the three error messages (U+26A0 U+FE0F in UTF-8).\<close>

definition warning_sign :: string where
  "warning_sign = [CHR 0xE2, CHR 0x9A, CHR 0xA0, CHR 0xEF, CHR 0xB8, CHR 0x8F]"

text \<open>The reads of the file system the loaders make.\<close>

datatype io_event = Os_path_exists string | Joblib_load string

text \<open>
  The process and its surroundings: what each of the three files holds (\<open>None\<close> when the
  file is absent; a file that is present holds an artifact of its kind), the cache of
  \<^verbatim>\<open>st.cache_resource\<close> for each of the three functions, the reads made so far and what
  the page has written.
\<close>

record world =
  model_pkl :: "model option"
  encoders_pkl :: "encoder_bank option"
  defaults_pkl :: "frame option"
  model_cache :: "model option"
  encoders_cache :: "encoder_bank option"
  defaults_cache :: "frame option"
  io_log :: "io_event list"
  screen :: "ui_event list"

text \<open>A call either returns or ends the run of the script at \<^verbatim>\<open>st.stop()\<close>.\<close>

datatype 'a run = Return 'a | Stop

text \<open>Lines 29 to 33, the function under the decorator.\<close>

definition load_model_body :: "string \<Rightarrow> world \<Rightarrow> model run \<times> world" where
  "load_model_body BASE_DIR w =
     (let w1 = w\<lparr>io_log := io_log w @ [Os_path_exists (MODEL_PATH BASE_DIR)]\<rparr> in
      case model_pkl w1 of
        None \<Rightarrow>
          (Stop, w1\<lparr>screen := screen w1 @
             [St_error (warning_sign @ '' Model file not found at:'' @ [CHR 0x0A]
                          @ MODEL_PATH BASE_DIR)]\<rparr>)
      | Some m \<Rightarrow> (Return m, w1\<lparr>io_log := io_log w1 @ [Joblib_load (MODEL_PATH BASE_DIR)]\<rparr>))"

text \<open>Lines 36 to 40.\<close>

definition load_encoders_body :: "string \<Rightarrow> world \<Rightarrow> encoder_bank run \<times> world" where
  "load_encoders_body BASE_DIR w =
     (let w1 = w\<lparr>io_log := io_log w @ [Os_path_exists (ENCODER_PATH BASE_DIR)]\<rparr> in
      case encoders_pkl w1 of
        None \<Rightarrow>
          (Stop, w1\<lparr>screen := screen w1 @
             [St_error (warning_sign @ '' Label encoders file not found.'')]\<rparr>)
      | Some e \<Rightarrow> (Return e, w1\<lparr>io_log := io_log w1 @ [Joblib_load (ENCODER_PATH BASE_DIR)]\<rparr>))"

text \<open>Lines 43 to 47.\<close>

definition load_defaults_body :: "string \<Rightarrow> world \<Rightarrow> frame run \<times> world" where
  "load_defaults_body BASE_DIR w =
     (let w1 = w\<lparr>io_log := io_log w @ [Os_path_exists (DEFAULT_PATH BASE_DIR)]\<rparr> in
      case defaults_pkl w1 of
        None \<Rightarrow>
          (Stop, w1\<lparr>screen := screen w1 @
             [St_error (warning_sign @ '' defaults.pkl not found.'')]\<rparr>)
      | Some d \<Rightarrow> (Return d, w1\<lparr>io_log := io_log w1 @ [Joblib_load (DEFAULT_PATH BASE_DIR)]\<rparr>))"

text \<open>
  The decorator \<^verbatim>\<open>@st.cache_resource\<close> on a function of no arguments: a call returns
  the cached object when there is one and does not run the function; otherwise it runs the
  function and caches what it returns. A run that ends at \<^verbatim>\<open>st.stop()\<close> caches
  nothing.
\<close>

definition cache_resource ::
  "(world \<Rightarrow> 'a option) \<Rightarrow> ('a \<Rightarrow> world \<Rightarrow> world) \<Rightarrow> (world \<Rightarrow> 'a run \<times> world)
     \<Rightarrow> world \<Rightarrow> 'a run \<times> world" where
  "cache_resource cached store body w =
     (case cached w of
        Some v \<Rightarrow> (Return v, w)
      | None \<Rightarrow>
          (case body w of
             (Return v, w') \<Rightarrow> (Return v, store v w')
           | (Stop, w') \<Rightarrow> (Stop, w')))"

definition load_model :: "string \<Rightarrow> world \<Rightarrow> model run \<times> world" where
  "load_model BASE_DIR =
     cache_resource model_cache (\<lambda>v w. w\<lparr>model_cache := Some v\<rparr>) (load_model_body BASE_DIR)"

definition load_encoders :: "string \<Rightarrow> world \<Rightarrow> encoder_bank run \<times> world" where
  "load_encoders BASE_DIR =
     cache_resource encoders_cache (\<lambda>v w. w\<lparr>encoders_cache := Some v\<rparr>)
       (load_encoders_body BASE_DIR)"

definition load_defaults :: "string \<Rightarrow> world \<Rightarrow> frame run \<times> world" where
  "load_defaults BASE_DIR =
     cache_resource defaults_cache (\<lambda>v w. w\<lparr>defaults_cache := Some v\<rparr>)
       (load_defaults_body BASE_DIR)"

subsection \<open>The prediction page\<close>

text \<open>
  Lines 102 to 198, one run of the script on the prediction page, for the state, the
  category and the year the widgets return and for whether the button was pressed.
\<close>

definition prediction_page ::
  "string \<Rightarrow> string \<Rightarrow> string \<Rightarrow> int \<Rightarrow> bool \<Rightarrow> world \<Rightarrow> outcome \<times> world" where
  "prediction_page BASE_DIR state category year pressed w =
     (case load_model BASE_DIR (w\<lparr>screen := screen w @ [St_header]\<rparr>) of
        (Stop, w1) \<Rightarrow> (Stopped, w1)
      | (Return model, w1) \<Rightarrow>
     (case load_encoders BASE_DIR w1 of
        (Stop, w2) \<Rightarrow> (Stopped, w2)
      | (Return encoders, w2) \<Rightarrow>
     (case load_defaults BASE_DIR w2 of
        (Stop, w3) \<Rightarrow> (Stopped, w3)
      | (Return DEFAULTS, w3) \<Rightarrow>
     (case encoders ''state'' of
        None \<Rightarrow> (Raised (KeyError [''state'']), w3\<lparr>screen := screen w3 @ [St_markdown_intro]\<rparr>)
      | Some state_encoder \<Rightarrow>
     (case encoders ''category'' of
        None \<Rightarrow>
          (Raised (KeyError [''category'']),
           w3\<lparr>screen := screen w3 @
              [St_markdown_intro, St_selectbox ''State'' (classes state_encoder)]\<rparr>)
      | Some category_encoder \<Rightarrow>
          (let w4 = w3\<lparr>screen := screen w3 @
                 [St_markdown_intro, St_selectbox ''State'' (classes state_encoder),
                  St_selectbox ''Crime Category'' (classes category_encoder),
                  St_slider, St_button]\<rparr>
           in if pressed then
                (case predict_clicked model encoders DEFAULTS state category year of
                   (out, events) \<Rightarrow> (out, w4\<lparr>screen := screen w4 @ events\<rparr>))
              else (Finished, w4)))))))"

subsection \<open>The life of the process\<close>

text \<open>
  What can happen, in any order, while the process lives: the interface calls a loader, or
  somebody writes or deletes an artifact file.
\<close>

datatype action =
    Call_load_model
  | Call_load_encoders
  | Call_load_defaults
  | Write_model "model option"
  | Write_encoders "encoder_bank option"
  | Write_defaults "frame option"

fun exec :: "string \<Rightarrow> action \<Rightarrow> world \<Rightarrow> world" where
  "exec BASE_DIR Call_load_model w = snd (load_model BASE_DIR w)"
| "exec BASE_DIR Call_load_encoders w = snd (load_encoders BASE_DIR w)"
| "exec BASE_DIR Call_load_defaults w = snd (load_defaults BASE_DIR w)"
| "exec BASE_DIR (Write_model f) w = w\<lparr>model_pkl := f\<rparr>"
| "exec BASE_DIR (Write_encoders f) w = w\<lparr>encoders_pkl := f\<rparr>"
| "exec BASE_DIR (Write_defaults f) w = w\<lparr>defaults_pkl := f\<rparr>"

definition run_actions :: "string \<Rightarrow> action list \<Rightarrow> world \<Rightarrow> world" where
  "run_actions BASE_DIR actions w = fold (exec BASE_DIR) actions w"

text \<open>The start of the process: the files as they are, nothing cached, read or written.\<close>

definition process_start :: "model option \<Rightarrow> encoder_bank option \<Rightarrow> frame option \<Rightarrow> world" where
  "process_start m e d =
     \<lparr>model_pkl = m, encoders_pkl = e, defaults_pkl = d,
      model_cache = None, encoders_cache = None, defaults_cache = None,
      io_log = [], screen = []\<rparr>"

text \<open>How often the file at a path was deserialized.\<close>

definition loads_of :: "string \<Rightarrow> world \<Rightarrow> nat" where
  "loads_of path w = count_list (io_log w) (Joblib_load path)"


text \<open>The invariant of the cache: a file was deserialized at most once, and only into the cache.\<close>

definition cache_inv :: "string \<Rightarrow> world \<Rightarrow> bool" where
  "cache_inv b w =
     (loads_of (MODEL_PATH b) w \<le> (if model_cache w = None then 0 else 1)
      \<and> loads_of (ENCODER_PATH b) w \<le> (if encoders_cache w = None then 0 else 1)
      \<and> loads_of (DEFAULT_PATH b) w \<le> (if defaults_cache w = None then 0 else 1))"

subsection \<open>Example artifacts\<close>

text \<open>
  A small model and encoder bank for concrete runs: two crime types, and a model whose
  \<^verbatim>\<open>predict\<close> raises on the crime type with code 1 and scores every other row 200.
\<close>

definition example_model :: model where
  "example_model =
     \<lparr>feature_name = [''state'', ''category'', ''type'', ''year''],
      predict = (\<lambda>df. if map_of df ''type'' = Some (CInt 1)
                       then Inl (PredictError ''boom'') else Inr 200)\<rparr>"

definition example_encoders :: encoder_bank where
  "example_encoders =
     [''state'' \<mapsto> \<lparr>classes = [''Johor''], classes_dtype = Object_dtype\<rparr>,
      ''category'' \<mapsto> \<lparr>classes = [''property''], classes_dtype = Object_dtype\<rparr>,
      ''type'' \<mapsto> \<lparr>classes = [''robbery'', ''theft''], classes_dtype = Object_dtype\<rparr>]"


section \<open>Properties\<close>

subsection \<open>Risk classification\<close>

text \<open>
  Claim C1. For every score the label is High exactly when the score is above 150,
  Moderate exactly when it is above 80 and at most 150, and Low exactly when it is at most
  80. At the boundaries: 150.0001 is High, 150 is Moderate, 80.0001 is Moderate, 80 is Low.
\<close>

theorem classify_thresholds:
  "(classify score = High) = (150 < score)
   \<and> (classify score = Moderate) = (80 < score \<and> score \<le> 150)
   \<and> (classify score = Low) = (score \<le> 80)
   \<and> classify 150.0001 = High \<and> classify 150 = Moderate
   \<and> classify 80.0001 = Moderate \<and> classify 80 = Low"
  by (simp add: classify_def risk_step_def)

subsection \<open>Ranking\<close>

lemma sorted_py_desc_sorted:
  "sorted_wrt (\<lambda>a b. key b \<le> key a) (sorted_py key True xs)"
proof -
  have "sorted (map key (sort_key key (rev xs)))" by simp
  then have "sorted_wrt (\<lambda>a b. key a \<le> key b) (sort_key key (rev xs))"
    by (simp only: sorted_map)
  then show ?thesis
    by (simp add: sorted_py_def sorted_wrt_rev)
qed

lemma set_sorted_py: "set (sorted_py key reverse xs) = set xs"
  by (simp add: sorted_py_def)

lemma sorted_py_stable:
  "filter (\<lambda>x. key x = k) (sorted_py key reverse xs) = filter (\<lambda>x. key x = k) xs"
  by (simp add: sorted_py_def sort_key_stable flip: rev_filter)

lemma mset_sorted_py: "mset (sorted_py key reverse xs) = mset xs"
  by (simp add: sorted_py_def)

lemma length_sorted_py: "length (sorted_py key reverse xs) = length xs"
  by (simp add: sorted_py_def)

lemma filter_take_prefix: "prefix (filter P (take n ys)) (filter P ys)"
proof -
  have "filter P ys = filter P (take n ys) @ filter P (drop n ys)"
    by (metis append_take_drop_id filter_append)
  then show ?thesis by (metis prefixI)
qed

text \<open>
  Claim C2. For every list of results, the ranking has exactly min(5, number of results)
  entries, they are in descending order of score, and for every score the ranked entries
  with that score are the first ones of the input with that score, in the input's order
  (a stable tie-break). The ranked entries are the front of a descending arrangement of
  all the results.
\<close>

theorem rank_top5_sorted_stable:
  "length (rank results) = min 5 (length results)
   \<and> sorted_wrt (\<lambda>a b. snd b \<le> snd a) (rank results)
   \<and> prefix (filter (\<lambda>x. snd x = k) (rank results)) (filter (\<lambda>x. snd x = k) results)
   \<and> (\<exists>rest. mset (rank results @ rest) = mset results
         \<and> sorted_wrt (\<lambda>a b. snd b \<le> snd a) (rank results @ rest))"
proof -
  let ?s = "sorted_py snd True results"
  have len: "length (rank results) = min 5 (length results)"
    by (simp add: rank_def length_sorted_py min.commute)
  have srt: "sorted_wrt (\<lambda>a b. snd b \<le> snd a) (rank results)"
    unfolding rank_def by (rule sorted_wrt_take) (rule sorted_py_desc_sorted)
  have "prefix (filter (\<lambda>x. snd x = k) (take 5 ?s)) (filter (\<lambda>x. snd x = k) ?s)"
    by (rule filter_take_prefix)
  then have stab:
    "prefix (filter (\<lambda>x. snd x = k) (rank results)) (filter (\<lambda>x. snd x = k) results)"
    by (simp add: rank_def sorted_py_stable)
  have "mset (rank results @ drop 5 ?s) = mset results
        \<and> sorted_wrt (\<lambda>a b. snd b \<le> snd a) (rank results @ drop 5 ?s)"
    by (simp add: rank_def sorted_py_desc_sorted mset_sorted_py del: mset_append)
  then have top: "\<exists>rest. mset (rank results @ rest) = mset results
         \<and> sorted_wrt (\<lambda>a b. snd b \<le> snd a) (rank results @ rest)" by blast
  from len srt stab top show ?thesis by blast
qed

subsection \<open>Alerts\<close>

lemma risk_step_label: "fst (risk_step score flags) = classify score"
  by (cases flags) (simp add: risk_step_def classify_def)

lemma risk_step_flags:
  "snd (risk_step score (h, m)) = (h \<or> 150 < score, m \<or> (80 < score \<and> score \<le> 150))"
  by (simp add: risk_step_def)

lemma label_loop_flags:
  "snd (label_loop i rs (h, m)) =
     (h \<or> (\<exists>x\<in>set rs. 150 < snd x), m \<or> (\<exists>x\<in>set rs. 80 < snd x \<and> snd x \<le> 150))"
proof (induction rs arbitrary: i h m)
  case Nil
  show ?case by simp
next
  case (Cons r rs)
  obtain crime score where r: "r = (crime, score)" by (cases r)
  obtain risk h' m' where st: "risk_step score (h, m) = (risk, h', m')"
    by (cases "risk_step score (h, m)") auto
  from risk_step_flags [of score h m] st
  have fl: "h' = (h \<or> 150 < score)" "m' = (m \<or> (80 < score \<and> score \<le> 150))" by simp_all
  have "snd (label_loop i (r # rs) (h, m)) = snd (label_loop (Suc i) rs (h', m'))"
    by (simp add: r st split: prod.splits)
  also have "\<dots> = (h' \<or> (\<exists>x\<in>set rs. 150 < snd x), m' \<or> (\<exists>x\<in>set rs. 80 < snd x \<and> snd x \<le> 150))"
    by (rule Cons.IH)
  finally show ?case by (auto simp: fl r)
qed

lemma label_loop_Cons:
  "fst (label_loop i ((crime, score) # rest) flags) =
     St_rank_line i crime (classify score) # fst (label_loop (Suc i) rest (snd (risk_step score flags)))"
proof -
  obtain risk flags' where st: "risk_step score flags = (risk, flags')"
    by (cases "risk_step score flags") auto
  from risk_step_label [of score flags] st have "risk = classify score" by simp
  then show ?thesis by (simp add: st split: prod.splits)
qed

lemma alerts_emitted_append: "alerts_emitted (xs @ ys) = alerts_emitted xs @ alerts_emitted ys"
  by (induction xs rule: alerts_emitted.induct) simp_all

lemma labels_shown_append: "labels_shown (xs @ ys) = labels_shown xs @ labels_shown ys"
  by (induction xs rule: labels_shown.induct) simp_all

lemma alerts_emitted_lines: "alerts_emitted (fst (label_loop i rs flags)) = []"
proof (induction rs arbitrary: i flags)
  case Nil
  show ?case by simp
next
  case (Cons r rs)
  obtain crime score where r: "r = (crime, score)" by (cases r)
  show ?case unfolding r label_loop_Cons by (simp add: Cons.IH)
qed

lemma labels_shown_lines: "labels_shown (fst (label_loop i rs flags)) = map (classify \<circ> snd) rs"
proof (induction rs arbitrary: i flags)
  case Nil
  show ?case by simp
next
  case (Cons r rs)
  obtain crime score where r: "r = (crime, score)" by (cases r)
  show ?case unfolding r label_loop_Cons by (simp add: Cons.IH)
qed

lemma classify_High: "(classify s = High) = (150 < s)"
  by (simp add: classify_def risk_step_def)

lemma classify_Moderate: "(classify s = Moderate) = (80 < s \<and> s \<le> 150)"
  by (simp add: classify_def risk_step_def)

lemma alert_for_eq:
  "alert_for rs =
     (if \<exists>x\<in>set rs. 150 < snd x then High_alert
      else if \<exists>x\<in>set rs. 80 < snd x then Moderate_alert else Stable_notice)"
proof -
  have m: "(\<exists>x\<in>set rs. 80 < snd x \<and> snd x \<le> 150) = (\<exists>x\<in>set rs. 80 < snd x)"
    if "\<not> (\<exists>x\<in>set rs. 150 < snd x)"
  proof -
    from that have "\<forall>x\<in>set rs. snd x \<le> 150" by (simp add: not_less)
    then show ?thesis by blast
  qed
  show ?thesis
    unfolding alert_for_def label_loop_flags alert_of_def
    by (simp add: m)
qed

text \<open>
  Claim C9. Whatever the top five are, the page writes exactly one banner: the High alert
  when a line shown is labelled High, otherwise the Moderate alert when a line shown is
  labelled Moderate, otherwise the Stable notice. The labels shown are the classifications
  of the top five scores, in order.
\<close>

theorem one_alert_by_priority:
  "alerts_emitted (render_top5 top5) =
     [if High \<in> set (labels_shown (render_top5 top5)) then High_alert
      else if Moderate \<in> set (labels_shown (render_top5 top5)) then Moderate_alert
      else Stable_notice]
   \<and> labels_shown (render_top5 top5) = map (classify \<circ> snd) top5"
proof -
  obtain lines flags where ll: "label_loop 1 top5 (False, False) = (lines, flags)"
    by (cases "label_loop 1 top5 (False, False)") auto
  from label_loop_flags [of 1 top5 False False] ll
  have flags: "flags = ((\<exists>x\<in>set top5. 150 < snd x), (\<exists>x\<in>set top5. 80 < snd x \<and> snd x \<le> 150))"
    by simp
  from alerts_emitted_lines [of 1 top5 "(False, False)"] ll
  have no_alert: "alerts_emitted lines = []" by simp
  from labels_shown_lines [of 1 top5 "(False, False)"] ll
  have shown: "labels_shown lines = map (classify \<circ> snd) top5" by simp
  have r: "render_top5 top5 = [St_subheader_top5] @ lines @ [St_alert (alert_of flags), St_actions]"
    unfolding render_top5_def ll by simp
  have lab: "labels_shown (render_top5 top5) = map (classify \<circ> snd) top5"
    by (simp add: r labels_shown_append shown)
  have al: "alerts_emitted (render_top5 top5) = [alert_of flags]"
    by (simp add: r alerts_emitted_append no_alert)
  have "(High \<in> set (map (classify \<circ> snd) top5)) = (\<exists>x\<in>set top5. classify (snd x) = High)"
    by (simp add: image_iff eq_commute)
  then have hi: "(High \<in> set (map (classify \<circ> snd) top5)) = (\<exists>x\<in>set top5. 150 < snd x)"
    by (simp only: classify_High)
  have "(Moderate \<in> set (map (classify \<circ> snd) top5)) = (\<exists>x\<in>set top5. classify (snd x) = Moderate)"
    by (simp add: image_iff eq_commute)
  then have mo: "(Moderate \<in> set (map (classify \<circ> snd) top5)) = (\<exists>x\<in>set top5. 80 < snd x \<and> snd x \<le> 150)"
    by (simp only: classify_Moderate)
  show ?thesis
    unfolding al lab hi mo by (simp add: flags alert_of_def)
qed

lemma top_of_sorted_desc:
  fixes key :: "'a \<Rightarrow> 'k::linorder"
  assumes "sorted_wrt (\<lambda>a b. key b \<le> key a) ys" and "x \<in> set ys" and "0 < n"
  shows "\<exists>y\<in>set (take n ys). key x \<le> key y"
proof (cases ys)
  case Nil
  with assms(2) show ?thesis by simp
next
  case (Cons y ys')
  from assms(3) obtain n' where n: "n = Suc n'" by (cases n) auto
  from assms(1,2) Cons have "key x \<le> key y" by auto
  then show ?thesis by (auto simp: Cons n)
qed

lemma rank_above_threshold:
  "(\<exists>x\<in>set (rank results). t < snd x) = (\<exists>x\<in>set results. t < snd x)"
proof
  assume "\<exists>x\<in>set (rank results). t < snd x"
  then obtain x where "x \<in> set (rank results)" "t < snd x" by blast
  then have "x \<in> set results"
    by (auto simp: rank_def set_sorted_py dest: in_set_takeD)
  with \<open>t < snd x\<close> show "\<exists>x\<in>set results. t < snd x" by blast
next
  assume "\<exists>x\<in>set results. t < snd x"
  then obtain x where x: "x \<in> set results" "t < snd x" by blast
  then have "x \<in> set (sorted_py snd True results)" by (simp add: set_sorted_py)
  from top_of_sorted_desc [OF sorted_py_desc_sorted this, of 5]
  obtain y where "y \<in> set (rank results)" "snd x \<le> snd y"
    by (auto simp: rank_def)
  from x(2) this(2) have "t < snd y" by simp
  with \<open>y \<in> set (rank results)\<close> show "\<exists>x\<in>set (rank results). t < snd x" by blast
qed

text \<open>
  Claim C10, as amended. For every list of results the banner selected from the top five
  is the banner the same flags select from all the results: some ranked entry scores
  above a threshold exactly when some result does.
\<close>

theorem top5_alert_equals_full_alert:
  "alert_for (rank results) = alert_for results
   \<and> (\<exists>x\<in>set (rank results). t < snd x) = (\<exists>x\<in>set results. t < snd x)"
  by (simp add: alert_for_eq rank_above_threshold)

text \<open>
  Claim C10 as stated says that every result above a threshold is among the top five.
  With six results at score 200 the sixth is High and is not ranked.
\<close>

theorem high_risk_outside_top5:
  "classify 200 = High
   \<and> (''t6'', 200) \<in> set [(''t1'', 200::real), (''t2'', 200), (''t3'', 200), (''t4'', 200), (''t5'', 200), (''t6'', 200)]
   \<and> (''t6'', 200) \<notin> set (rank [(''t1'', 200), (''t2'', 200), (''t3'', 200), (''t4'', 200), (''t5'', 200), (''t6'', 200)])"
  by (simp add: classify_def risk_step_def rank_def sorted_py_def)

subsection \<open>Feature rows\<close>

lemma map_of_fold_update:
  "map_of (fold (\<lambda>(col, val) df. AList.update col val df) ds df) = map_of df ++ map_of (rev ds)"
proof (induction ds arbitrary: df)
  case Nil
  show ?case by simp
next
  case (Cons d ds)
  obtain col val where d: "d = (col, val)" by (cases d)
  show ?case
    by (simp add: d Cons.IH update_conv' map_add_def fun_eq_iff split: option.splits)
qed

lemma distinct_fold_update:
  "distinct (map fst df) \<Longrightarrow>
     distinct (map fst (fold (\<lambda>(col, val) df. AList.update col val df) ds df))"
proof (induction ds arbitrary: df)
  case Nil
  then show ?case by simp
next
  case (Cons d ds)
  obtain col val where d: "d = (col, val)" by (cases d)
  from Cons.prems have "distinct (map fst (AList.update col val df))"
    by (rule distinct_update)
  from Cons.IH [OF this] show ?case by (simp add: d)
qed

lemma map_of_rev_distinct: "distinct (map fst ds) \<Longrightarrow> map_of (rev ds) = map_of ds"
  by (rule map_of_inject_set [THEN iffD2]) (simp_all add: distinct_rev rev_map [symmetric])

lemma map_of_build:
  "map_of (build state category crime_type year DEFAULTS) =
     map_of [(''state'', CStr state), (''category'', CStr category),
             (''type'', CStr crime_type), (''year'', CInt year)] ++ map_of (rev DEFAULTS)"
  unfolding build_def by (rule map_of_fold_update)

lemma keys_build:
  "fst ` set (build state category crime_type year DEFAULTS) =
     {''state'', ''category'', ''type'', ''year''} \<union> fst ` set DEFAULTS"
proof -
  have "dom (map_of (build state category crime_type year DEFAULTS)) =
          {''state'', ''category'', ''type'', ''year''} \<union> fst ` set DEFAULTS"
    unfolding map_of_build dom_map_add dom_map_of_conv_image_fst by auto
  then show ?thesis by (simp only: dom_map_of_conv_image_fst)
qed

lemma distinct_build: "distinct (map fst (build state category crime_type year DEFAULTS))"
  unfolding build_def by (rule distinct_fold_update) simp

text \<open>
  Claim C3, as amended. For every state, category, crime type, year and Defaults mapping
  (a dictionary: its keys are distinct), the columns of the row built are exactly state,
  category, type, year and the keys of Defaults, each once; every key of Defaults carries
  its Defaults value; each of the four fields of the interface carries the value the user
  supplied when its name is not a key of Defaults.
\<close>

theorem build_row:
  assumes "distinct (map fst DEFAULTS)"
  shows "fst ` set (build state category crime_type year DEFAULTS) =
           {''state'', ''category'', ''type'', ''year''} \<union> fst ` set DEFAULTS
       \<and> distinct (map fst (build state category crime_type year DEFAULTS))
       \<and> (\<forall>(col, val) \<in> set DEFAULTS.
             map_of (build state category crime_type year DEFAULTS) col = Some val)
       \<and> (''state'' \<notin> fst ` set DEFAULTS \<longrightarrow>
             map_of (build state category crime_type year DEFAULTS) ''state'' = Some (CStr state))
       \<and> (''category'' \<notin> fst ` set DEFAULTS \<longrightarrow>
             map_of (build state category crime_type year DEFAULTS) ''category'' = Some (CStr category))
       \<and> (''type'' \<notin> fst ` set DEFAULTS \<longrightarrow>
             map_of (build state category crime_type year DEFAULTS) ''type'' = Some (CStr crime_type))
       \<and> (''year'' \<notin> fst ` set DEFAULTS \<longrightarrow>
             map_of (build state category crime_type year DEFAULTS) ''year'' = Some (CInt year))"
proof -
  let ?row = "build state category crime_type year DEFAULTS"
  let ?ui = "[(''state'', CStr state), (''category'', CStr category),
              (''type'', CStr crime_type), (''year'', CInt year)]"
  have m: "map_of ?row = map_of ?ui ++ map_of DEFAULTS"
    by (simp only: map_of_build map_of_rev_distinct [OF assms])
  have dflt: "\<forall>(col, val) \<in> set DEFAULTS. map_of ?row col = Some val"
  proof (clarify)
    fix col val assume "(col, val) \<in> set DEFAULTS"
    with assms have "map_of DEFAULTS col = Some val" by simp
    then show "map_of ?row col = Some val" by (simp add: m map_add_def)
  qed
  have ui: "map_of ?row k = map_of ?ui k" if "k \<notin> fst ` set DEFAULTS" for k
  proof -
    from that have "map_of DEFAULTS k = None" by (simp add: map_of_eq_None_iff)
    then show ?thesis by (simp add: m map_add_def)
  qed
  show ?thesis
    using keys_build distinct_build dflt by (simp add: ui)
qed

theorem build_row_witness:
  "distinct (map fst [(''pop'', CInt 100)])
   \<and> fst ` set (build ''X'' ''Y'' ''Z'' 2027 [(''pop'', CInt 100)]) =
       {''state'', ''category'', ''type'', ''year''} \<union> {''pop''}
   \<and> map_of (build ''X'' ''Y'' ''Z'' 2027 [(''pop'', CInt 100)]) ''pop'' = Some (CInt 100)
   \<and> map_of (build ''X'' ''Y'' ''Z'' 2027 [(''pop'', CInt 100)]) ''state'' = Some (CStr ''X'')
   \<and> map_of (build ''X'' ''Y'' ''Z'' 2027 [(''pop'', CInt 100)]) ''category'' = Some (CStr ''Y'')
   \<and> map_of (build ''X'' ''Y'' ''Z'' 2027 [(''pop'', CInt 100)]) ''type'' = Some (CStr ''Z'')
   \<and> map_of (build ''X'' ''Y'' ''Z'' 2027 [(''pop'', CInt 100)]) ''year'' = Some (CInt 2027)"
  using build_row [of "[(''pop'', CInt 100)]" "''X''" "''Y''" "''Z''" 2027] by simp

text \<open>
  Claim C3 as stated says that Defaults never override the fields of the interface. With
  Defaults holding the key year, line 145 replaces the year the user chose.
\<close>

theorem defaults_override_year:
  "build ''X'' ''Y'' ''Z'' 2027 [(''year'', CInt 1999)] =
     [(''state'', CStr ''X''), (''category'', CStr ''Y''), (''type'', CStr ''Z''),
      (''year'', CInt 1999)]"
  by (simp add: build_def)

subsection \<open>Feature alignment\<close>

lemma align_ok:
  assumes "set names \<subseteq> fst ` set input_df"
  shows "align input_df names = Inr (map (\<lambda>n. (n, the (map_of input_df n))) names)"
proof -
  from assms have "\<forall>n\<in>set names. map_of input_df n \<noteq> None"
    by (auto simp: map_of_eq_None_iff)
  then have "filter (\<lambda>n. map_of input_df n = None) names = []"
    by (simp add: filter_empty_conv)
  then show ?thesis by (simp add: align_def)
qed

lemma align_missing:
  assumes "\<not> set names \<subseteq> fst ` set input_df"
  shows "align input_df names = Inl (KeyError (filter (\<lambda>n. n \<notin> fst ` set input_df) names))
       \<and> filter (\<lambda>n. n \<notin> fst ` set input_df) names \<noteq> []"
proof -
  have eq: "filter (\<lambda>n. map_of input_df n = None) names = filter (\<lambda>n. n \<notin> fst ` set input_df) names"
    by (simp add: map_of_eq_None_iff)
  from assms obtain n where "n \<in> set names" "n \<notin> fst ` set input_df" by blast
  then have "filter (\<lambda>n. n \<notin> fst ` set input_df) names \<noteq> []"
    by (auto simp: filter_empty_conv)
  then show ?thesis by (simp add: align_def eq)
qed

text \<open>
  Claim C4. When every feature name the model declares is a column of the row, alignment
  returns exactly those columns, in the declared order, each with the row's value; the
  columns the model does not declare are dropped. When some declared name is not a column,
  alignment fails with the error that names the missing features.
\<close>

theorem align_projects_or_fails:
  "(set names \<subseteq> fst ` set input_df \<longrightarrow>
      (\<exists>out. align input_df names = Inr out
         \<and> map fst out = names
         \<and> map Some (map snd out) = map (map_of input_df) names))
   \<and> (\<not> set names \<subseteq> fst ` set input_df \<longrightarrow>
      (\<exists>missing. align input_df names = Inl (KeyError missing)
         \<and> missing \<noteq> []
         \<and> set missing = set names - fst ` set input_df))"
proof (intro conjI impI)
  assume sub: "set names \<subseteq> fst ` set input_df"
  let ?out = "map (\<lambda>n. (n, the (map_of input_df n))) names"
  have "map fst ?out = names" by (simp add: comp_def)
  moreover have "map Some (map snd ?out) = map (map_of input_df) names"
  proof (rule map_cong [OF refl, THEN trans [rotated]])
    show "map Some (map snd ?out) = map (\<lambda>n. Some (the (map_of input_df n))) names"
      by (simp add: comp_def)
  next
    fix n assume "n \<in> set names"
    with sub have "map_of input_df n \<noteq> None" by (auto simp: map_of_eq_None_iff)
    then show "Some (the (map_of input_df n)) = map_of input_df n" by auto
  qed
  ultimately show "\<exists>out. align input_df names = Inr out \<and> map fst out = names
         \<and> map Some (map snd out) = map (map_of input_df) names"
    using align_ok [OF sub] by blast
next
  assume "\<not> set names \<subseteq> fst ` set input_df"
  from align_missing [OF this]
  show "\<exists>missing. align input_df names = Inl (KeyError missing) \<and> missing \<noteq> []
         \<and> set missing = set names - fst ` set input_df"
    by (intro exI [of _ "filter (\<lambda>n. n \<notin> fst ` set input_df) names"]) auto
qed

theorem align_projects_or_fails_witness:
  "set [''a'', ''b'', ''c''] \<subseteq> fst ` set [(''a'', CInt 1), (''b'', CInt 2), (''c'', CInt 3), (''d'', CInt 99)]
   \<and> align [(''a'', CInt 1), (''b'', CInt 2), (''c'', CInt 3), (''d'', CInt 99)] [''a'', ''b'', ''c'']
       = Inr [(''a'', CInt 1), (''b'', CInt 2), (''c'', CInt 3)]
   \<and> \<not> set [''a'', ''b'', ''missing_col'']
         \<subseteq> fst ` set [(''a'', CInt 1), (''b'', CInt 2), (''c'', CInt 3), (''d'', CInt 99)]
   \<and> align [(''a'', CInt 1), (''b'', CInt 2), (''c'', CInt 3), (''d'', CInt 99)]
        [''a'', ''b'', ''missing_col''] = Inl (KeyError [''missing_col''])"
proof -
  let ?row = "[(''a'', CInt 1), (''b'', CInt 2), (''c'', CInt 3), (''d'', CInt 99)]"
  have sub: "set [''a'', ''b'', ''c''] \<subseteq> fst ` set ?row" by simp
  have nsub: "\<not> set [''a'', ''b'', ''missing_col''] \<subseteq> fst ` set ?row" by simp
  have ok: "align ?row [''a'', ''b'', ''c''] = Inr [(''a'', CInt 1), (''b'', CInt 2), (''c'', CInt 3)]"
    by (simp add: align_def)
  have bad: "align ?row [''a'', ''b'', ''missing_col''] = Inl (KeyError [''missing_col''])"
    by (simp add: align_def)
  from align_projects_or_fails [of "[''a'', ''b'', ''c'']" ?row] sub ok nsub bad
  show ?thesis by blast
qed

subsection \<open>Encoding\<close>


lemma map_to_integer_None: "(map_to_integer uniques s = None) = (s \<notin> set uniques)"
proof -
  have m: "map fst (zip uniques [0..<length uniques]) = uniques"
    by (rule map_fst_zip) simp
  have "set (map fst (zip uniques [0..<length uniques])) = set uniques"
    by (simp only: m)
  then have "fst ` set (zip uniques [0..<length uniques]) = set uniques"
    by (simp only: set_map)
  then have "fst ` set (rev (zip uniques [0..<length uniques])) = set uniques"
    by (simp only: set_rev)
  then show ?thesis
    unfolding map_to_integer_def by (simp add: map_of_eq_None_iff)
qed

lemma astype_fits: "fits d s \<Longrightarrow> astype d (CStr s) = CStr s"
  by (cases d) simp_all


lemma transform_unknown:
  assumes "fits (classes_dtype enc) label" and "label \<notin> set (classes enc)"
  shows "transform enc (CStr label) = Inl (ValueError (CStr label))"
proof -
  from assms(2) have "map_to_integer (classes enc) label = None"
    by (simp add: map_to_integer_None)
  then show ?thesis
    by (simp add: transform_def astype_fits [OF assms(1)])
qed






text \<open>
  A string longer than the text dtype of the vocabulary is cut before the lookup, and
  gets the code of the label it is cut to.
\<close>

lemma long_label_cut_to_known_label:
  "transform \<lparr>classes = [''Johor'', ''Kedah''], classes_dtype = Text_dtype 5 float_text\<rparr>
     (CStr ''Johor Bahru'') = Inr (CInt 0)"
  by (simp add: transform_def map_to_integer_def)

subsection \<open>The prediction loop\<close>

lemma encode_col_unknown:
  assumes "encoders feature = Some enc" and "map_of input_df feature = Some (CStr label)"
    and "fits (classes_dtype enc) label" and "label \<notin> set (classes enc)"
  shows "encode_col encoders feature input_df = Inl (ValueError (CStr label))"
  using assms by (simp add: encode_col_def transform_unknown)

lemma prediction_loop_fail:
  "c \<in> set cs \<Longrightarrow> body c = Inl e \<Longrightarrow> \<exists>e'. prediction_loop body cs acc = Inl e'"
proof (induction cs arbitrary: acc)
  case Nil
  then show ?case by simp
next
  case (Cons a cs)
  show ?case
  proof (cases "body a")
    case (Inl e0)
    then show ?thesis by simp
  next
    case (Inr r)
    with Cons.prems have "c \<in> set cs" by auto
    from Cons.IH [OF this Cons.prems(2)] Inr show ?thesis by simp
  qed
qed

lemma prediction_loop_ok:
  "\<forall>c\<in>set cs. body c = Inr (f c) \<Longrightarrow> prediction_loop body cs acc = Inr (acc @ map f cs)"
  by (induction cs arbitrary: acc) simp_all

lemma prediction_loop_results:
  "prediction_loop body cs acc = Inr rs \<Longrightarrow>
     rs = acc @ map (projr \<circ> body) cs \<and> (\<forall>c\<in>set cs. \<exists>r. body c = Inr r)"
proof (induction cs arbitrary: acc)
  case Nil
  then show ?case by simp
next
  case (Cons a cs)
  show ?case
  proof (cases "body a")
    case (Inl e0)
    with Cons.prems show ?thesis by simp
  next
    case (Inr r)
    with Cons.prems have "prediction_loop body cs (acc @ [r]) = Inr rs" by simp
    from Cons.IH [OF this] Inr show ?thesis by simp
  qed
qed

text \<open>
  An unseen state label is reported for every crime type; a run of the block that finishes
  has scored every crime type of the vocabulary; a run writes one banner when it finishes
  and none when it raises.
\<close>

lemma score_candidate_unknown_state:
  assumes "encoders ''state'' = Some enc" and "fits (classes_dtype enc) state"
    and "state \<notin> set (classes enc)" and "''state'' \<notin> fst ` set DEFAULTS"
  shows "score_candidate model encoders DEFAULTS state category year crime_type
           = Inl (ValueError (CStr state))"
proof -
  from assms(4) have "map_of (rev DEFAULTS) ''state'' = None"
    by (simp add: map_of_eq_None_iff)
  then have "map_of (build state category crime_type year DEFAULTS) ''state'' = Some (CStr state)"
    by (simp add: map_of_build map_add_def)
  from encode_col_unknown
         [of encoders "''state''" enc "build state category crime_type year DEFAULTS" state,
          OF assms(1) this assms(2,3)]
  show ?thesis
    by (simp add: score_candidate_def)
qed

lemma predict_clicked_finished:
  assumes "predict_clicked model encoders DEFAULTS state category year = (Finished, events)"
  shows "\<exists>type_encoder results.
           encoders ''type'' = Some type_encoder
         \<and> map Inr results
             = map (score_candidate model encoders DEFAULTS state category year)
                 (classes type_encoder)
         \<and> events = render_top5 (rank results)"
proof (cases "encoders ''type''")
  case None
  with assms show ?thesis by (simp add: predict_clicked_def)
next
  case (Some type_encoder)
  let ?body = "score_candidate model encoders DEFAULTS state category year"
  let ?crime_types = "classes type_encoder"
  show ?thesis
  proof (cases "prediction_loop ?body ?crime_types []")
    case (Inl e)
    with assms Some show ?thesis by (simp add: predict_clicked_def)
  next
    case (Inr results)
    from prediction_loop_results [OF Inr]
    have rs: "results = map (projr \<circ> ?body) ?crime_types"
      and ok: "\<forall>c\<in>set ?crime_types. \<exists>r. ?body c = Inr r" by simp_all
    have "map Inr results = map ?body ?crime_types"
      unfolding rs using ok by (auto simp: comp_def)
    moreover from assms Some Inr have "events = render_top5 (rank results)"
      by (simp add: predict_clicked_def)
    ultimately show ?thesis using Some by blast
  qed
qed

lemma predict_clicked_alerts:
  "length (alerts_emitted (snd (predict_clicked model encoders DEFAULTS state category year)))
     = (if fst (predict_clicked model encoders DEFAULTS state category year) = Finished
        then 1 else 0)"
proof -
  have one: "length (alerts_emitted (render_top5 top5)) = 1" for top5
  proof -
    obtain lines flags where ll: "label_loop 1 top5 (False, False) = (lines, flags)"
      by (cases "label_loop 1 top5 (False, False)") auto
    from alerts_emitted_lines [of 1 top5 "(False, False)"] ll
    have "alerts_emitted lines = []" by simp
    then show ?thesis
      unfolding render_top5_def ll by (simp add: alerts_emitted_append)
  qed
  show ?thesis
    by (simp add: predict_clicked_def one split: option.splits sum.splits)
qed

text \<open>
  Claim C8. When scoring fails for some crime type of the vocabulary, the block under the
  button ends with an exception and writes nothing: no ranking, no label, no banner,
  whatever the crime types before it scored.
\<close>

theorem failed_candidate_aborts_ranking:
  assumes "encoders ''type'' = Some type_encoder"
    and "c \<in> set (classes type_encoder)"
    and "score_candidate model encoders DEFAULTS state category year c = Inl e"
  shows "\<exists>e'. predict_clicked model encoders DEFAULTS state category year = (Raised e', [])"
proof -
  from prediction_loop_fail
         [of c "classes type_encoder"
             "score_candidate model encoders DEFAULTS state category year" e "[]",
          OF assms(2,3)]
  obtain e' where
    "prediction_loop (score_candidate model encoders DEFAULTS state category year)
       (classes type_encoder) [] = Inl e'"
    by blast
  then show ?thesis by (simp add: predict_clicked_def assms(1))
qed

theorem failed_candidate_aborts_ranking_witness:
  "example_encoders ''type''
     = Some \<lparr>classes = [''robbery'', ''theft''], classes_dtype = Object_dtype\<rparr>
   \<and> ''theft'' \<in> set (classes \<lparr>classes = [''robbery'', ''theft''], classes_dtype = Object_dtype\<rparr>)
   \<and> score_candidate example_model example_encoders [] ''Johor'' ''property'' 2027 ''robbery''
        = Inr (''robbery'', 200)
   \<and> score_candidate example_model example_encoders [] ''Johor'' ''property'' 2027 ''theft''
        = Inl (PredictError ''boom'')
   \<and> (\<exists>e'. predict_clicked example_model example_encoders [] ''Johor'' ''property'' 2027
              = (Raised e', []))"
proof -
  let ?enc = "\<lparr>classes = [''robbery'', ''theft''], classes_dtype = Object_dtype\<rparr>"
  have t: "example_encoders ''type'' = Some ?enc"
    by (simp add: example_encoders_def)
  have m: "''theft'' \<in> set (classes ?enc)" by simp
  have ok: "score_candidate example_model example_encoders [] ''Johor'' ''property'' 2027 ''robbery''
              = Inr (''robbery'', 200)"
    by (simp add: score_candidate_def build_def encode_col_def transform_def
          map_to_integer_def align_def example_model_def example_encoders_def)
  have bad: "score_candidate example_model example_encoders [] ''Johor'' ''property'' 2027 ''theft''
              = Inl (PredictError ''boom'')"
    by (simp add: score_candidate_def build_def encode_col_def transform_def
          map_to_integer_def align_def example_model_def example_encoders_def)
  from failed_candidate_aborts_ranking [OF t m bad] t m ok bad show ?thesis by blast
qed

subsection \<open>The loaders\<close>

lemma paths_distinct:
  "MODEL_PATH b \<noteq> ENCODER_PATH b" "MODEL_PATH b \<noteq> DEFAULT_PATH b"
  "ENCODER_PATH b \<noteq> DEFAULT_PATH b"
  by (simp_all add: MODEL_PATH_def ENCODER_PATH_def DEFAULT_PATH_def path_join_def)

lemma cache_resource_hit:
  "cached w = Some v \<Longrightarrow> cache_resource cached store body w = (Return v, w)"
  by (simp add: cache_resource_def)

lemma load_model_cached: "model_cache w = Some m \<Longrightarrow> load_model b w = (Return m, w)"
  by (simp add: load_model_def cache_resource_hit)

lemma load_encoders_cached: "encoders_cache w = Some e \<Longrightarrow> load_encoders b w = (Return e, w)"
  by (simp add: load_encoders_def cache_resource_hit)

lemma load_defaults_cached: "defaults_cache w = Some d \<Longrightarrow> load_defaults b w = (Return d, w)"
  by (simp add: load_defaults_def cache_resource_hit)

lemma load_model_absent:
  "model_cache w = None \<Longrightarrow> model_pkl w = None \<Longrightarrow>
     load_model b w =
       (Stop, w\<lparr>io_log := io_log w @ [Os_path_exists (MODEL_PATH b)],
                screen := screen w @
                  [St_error (warning_sign @ '' Model file not found at:'' @ [CHR 0x0A]
                               @ MODEL_PATH b)]\<rparr>)"
  by (simp add: load_model_def cache_resource_def load_model_body_def)

lemma load_encoders_absent:
  "encoders_cache w = None \<Longrightarrow> encoders_pkl w = None \<Longrightarrow>
     load_encoders b w =
       (Stop, w\<lparr>io_log := io_log w @ [Os_path_exists (ENCODER_PATH b)],
                screen := screen w @
                  [St_error (warning_sign @ '' Label encoders file not found.'')]\<rparr>)"
  by (simp add: load_encoders_def cache_resource_def load_encoders_body_def)

lemma load_defaults_absent:
  "defaults_cache w = None \<Longrightarrow> defaults_pkl w = None \<Longrightarrow>
     load_defaults b w =
       (Stop, w\<lparr>io_log := io_log w @ [Os_path_exists (DEFAULT_PATH b)],
                screen := screen w @
                  [St_error (warning_sign @ '' defaults.pkl not found.'')]\<rparr>)"
  by (simp add: load_defaults_def cache_resource_def load_defaults_body_def)

lemma load_model_present:
  "model_cache w = None \<Longrightarrow> model_pkl w = Some m \<Longrightarrow>
     load_model b w =
       (Return m, w\<lparr>io_log := io_log w @ [Os_path_exists (MODEL_PATH b), Joblib_load (MODEL_PATH b)],
                    model_cache := Some m\<rparr>)"
  by (simp add: load_model_def cache_resource_def load_model_body_def)

lemma load_encoders_present:
  "encoders_cache w = None \<Longrightarrow> encoders_pkl w = Some e \<Longrightarrow>
     load_encoders b w =
       (Return e, w\<lparr>io_log := io_log w @ [Os_path_exists (ENCODER_PATH b), Joblib_load (ENCODER_PATH b)],
                    encoders_cache := Some e\<rparr>)"
  by (simp add: load_encoders_def cache_resource_def load_encoders_body_def)

lemma load_defaults_present:
  "defaults_cache w = None \<Longrightarrow> defaults_pkl w = Some d \<Longrightarrow>
     load_defaults b w =
       (Return d, w\<lparr>io_log := io_log w @ [Os_path_exists (DEFAULT_PATH b), Joblib_load (DEFAULT_PATH b)],
                    defaults_cache := Some d\<rparr>)"
  by (simp add: load_defaults_def cache_resource_def load_defaults_body_def)

text \<open>
  An absent file ends the run of the page at its loader, after the header and the error
  message. The message of the model's loader shows the path of the file; the messages of
  the other two do not.
\<close>

lemma page_stops_without_model:
  assumes "model_cache w = None" "model_pkl w = None"
  shows "prediction_page b state category year pressed w =
           (Stopped, w\<lparr>io_log := io_log w @ [Os_path_exists (MODEL_PATH b)],
                       screen := screen w @
                         [St_header,
                          St_error (warning_sign @ '' Model file not found at:'' @ [CHR 0x0A]
                                      @ MODEL_PATH b)]\<rparr>)"
proof -
  let ?w = "w\<lparr>screen := screen w @ [St_header]\<rparr>"
  have "model_cache ?w = None" "model_pkl ?w = None" using assms by simp_all
  from load_model_absent [OF this, of b] show ?thesis
    by (simp add: prediction_page_def)
qed

lemma model_message_shows_path:
  "sublist (MODEL_PATH b)
     (warning_sign @ '' Model file not found at:'' @ [CHR 0x0A] @ MODEL_PATH b)"
proof -
  have "sublist (MODEL_PATH b)
          ((warning_sign @ '' Model file not found at:'' @ [CHR 0x0A]) @ MODEL_PATH b)"
    by (rule sublist_append_leftI)
  then show ?thesis by simp
qed

lemma encoders_message_hides_path:
  "\<not> sublist (ENCODER_PATH b) (warning_sign @ '' Label encoders file not found.'')"
proof
  assume "sublist (ENCODER_PATH b) (warning_sign @ '' Label encoders file not found.'')"
  then have "set (ENCODER_PATH b) \<subseteq> set (warning_sign @ '' Label encoders file not found.'')"
    by (rule set_mono_sublist)
  moreover have "CHR ''_'' \<in> set (ENCODER_PATH b)"
    by (simp add: ENCODER_PATH_def path_join_def)
  ultimately have "CHR ''_'' \<in> set (warning_sign @ '' Label encoders file not found.'')"
    by blast
  then show False by (simp add: warning_sign_def)
qed

lemma defaults_message_hides_path:
  assumes "b \<noteq> []" "hd b = CHR ''/''"
  shows "\<not> sublist (DEFAULT_PATH b) (warning_sign @ '' defaults.pkl not found.'')"
proof
  assume "sublist (DEFAULT_PATH b) (warning_sign @ '' defaults.pkl not found.'')"
  then have "set (DEFAULT_PATH b) \<subseteq> set (warning_sign @ '' defaults.pkl not found.'')"
    by (rule set_mono_sublist)
  moreover from assms have "CHR ''/'' \<in> set b" by (cases b) auto
  then have "CHR ''/'' \<in> set (DEFAULT_PATH b)"
    by (simp add: DEFAULT_PATH_def path_join_def)
  ultimately have "CHR ''/'' \<in> set (warning_sign @ '' defaults.pkl not found.'')"
    by blast
  then show False by (simp add: warning_sign_def)
qed

lemma page_stops_without_encoders:
  assumes "encoders_cache w = None" "encoders_pkl w = None"
  shows "fst (prediction_page b state category year pressed w) = Stopped"
proof -
  let ?w = "w\<lparr>screen := screen w @ [St_header]\<rparr>"
  show ?thesis
  proof (cases "fst (load_model b ?w)")
    case Stop
    then obtain w1 where "load_model b ?w = (Stop, w1)"
      by (cases "load_model b ?w") simp
    then show ?thesis by (simp add: prediction_page_def)
  next
    case (Return m)
    obtain w1 where l: "load_model b ?w = (Return m, w1)"
      using Return by (cases "load_model b ?w") simp
    have "encoders_cache w1 = None \<and> encoders_pkl w1 = None"
      using l assms
      by (cases "model_cache w"; cases "model_pkl w")
         (auto simp: load_model_cached load_model_absent load_model_present)
    then have "fst (load_encoders b w1) = Stop"
      by (simp add: load_encoders_absent)
    then obtain w2 where "load_encoders b w1 = (Stop, w2)"
      by (cases "load_encoders b w1") simp
    then show ?thesis by (simp add: prediction_page_def l)
  qed
qed

lemma page_stops_without_defaults:
  assumes "defaults_cache w = None" "defaults_pkl w = None"
  shows "fst (prediction_page b state category year pressed w) = Stopped"
proof -
  let ?w = "w\<lparr>screen := screen w @ [St_header]\<rparr>"
  show ?thesis
  proof (cases "fst (load_model b ?w)")
    case Stop
    then obtain w1 where "load_model b ?w = (Stop, w1)"
      by (cases "load_model b ?w") simp
    then show ?thesis by (simp add: prediction_page_def)
  next
    case (Return m)
    obtain w1 where l: "load_model b ?w = (Return m, w1)"
      using Return by (cases "load_model b ?w") simp
    have d1: "defaults_cache w1 = None \<and> defaults_pkl w1 = None"
      using l assms
      by (cases "model_cache w"; cases "model_pkl w")
         (auto simp: load_model_cached load_model_absent load_model_present)
    show ?thesis
    proof (cases "fst (load_encoders b w1)")
      case Stop
      then obtain w2 where "load_encoders b w1 = (Stop, w2)"
        by (cases "load_encoders b w1") simp
      then show ?thesis by (simp add: prediction_page_def l)
    next
      case (Return e)
      obtain w2 where l2: "load_encoders b w1 = (Return e, w2)"
        using Return by (cases "load_encoders b w1") simp
      have "defaults_cache w2 = None \<and> defaults_pkl w2 = None"
        using l2 d1
        by (cases "encoders_cache w1"; cases "encoders_pkl w1")
           (auto simp: load_encoders_cached load_encoders_absent load_encoders_present)
      then have "fst (load_defaults b w2) = Stop"
        by (simp add: load_defaults_absent)
      then obtain w3 where "load_defaults b w2 = (Stop, w3)"
        by (cases "load_defaults b w2") simp
      then show ?thesis by (simp add: prediction_page_def l l2)
    qed
  qed
qed

text \<open>
  Claim C5, at the input where it fails: the model file is present and the encoders file
  is absent, with the script in /app. The page stops, as the claim says, after writing the
  header and the error message; the message does not show the path of the missing file
  /app/label_encoders.pkl. When the model file is absent the message does show the path
  /app/crime_model.pkl.
\<close>

theorem missing_encoders_error_hides_path:
  "prediction_page ''/app'' ''Johor'' ''property'' 2027 True
       (process_start (Some example_model) None (Some []))
     = (Stopped,
        \<lparr>model_pkl = Some example_model, encoders_pkl = None, defaults_pkl = Some [],
         model_cache = Some example_model, encoders_cache = None, defaults_cache = None,
         io_log = [Os_path_exists ''/app/crime_model.pkl'', Joblib_load ''/app/crime_model.pkl'',
                   Os_path_exists ''/app/label_encoders.pkl''],
         screen = [St_header, St_error (warning_sign @ '' Label encoders file not found.'')]\<rparr>)
   \<and> ENCODER_PATH ''/app'' = ''/app/label_encoders.pkl''
   \<and> \<not> sublist ''/app/label_encoders.pkl'' (warning_sign @ '' Label encoders file not found.'')
   \<and> screen (snd (prediction_page ''/app'' ''Johor'' ''property'' 2027 True
                     (process_start None None None)))
        = [St_header,
           St_error (warning_sign @ '' Model file not found at:'' @ [CHR 0x0A]
                       @ ''/app/crime_model.pkl'')]"
proof -
  have p: "ENCODER_PATH ''/app'' = ''/app/label_encoders.pkl''"
    by (simp add: ENCODER_PATH_def path_join_def)
  have h: "\<not> sublist ''/app/label_encoders.pkl'' (warning_sign @ '' Label encoders file not found.'')"
    using encoders_message_hides_path [of "''/app''"] unfolding p .
  have r: "prediction_page ''/app'' ''Johor'' ''property'' 2027 True
       (process_start (Some example_model) None (Some []))
     = (Stopped,
        \<lparr>model_pkl = Some example_model, encoders_pkl = None, defaults_pkl = Some [],
         model_cache = Some example_model, encoders_cache = None, defaults_cache = None,
         io_log = [Os_path_exists ''/app/crime_model.pkl'', Joblib_load ''/app/crime_model.pkl'',
                   Os_path_exists ''/app/label_encoders.pkl''],
         screen = [St_header, St_error (warning_sign @ '' Label encoders file not found.'')]\<rparr>)"
    by (simp add: prediction_page_def process_start_def load_model_def load_encoders_def
          cache_resource_def load_model_body_def load_encoders_body_def
          MODEL_PATH_def ENCODER_PATH_def path_join_def)
  have m: "screen (snd (prediction_page ''/app'' ''Johor'' ''property'' 2027 True
                     (process_start None None None)))
        = [St_header,
           St_error (warning_sign @ '' Model file not found at:'' @ [CHR 0x0A]
                       @ ''/app/crime_model.pkl'')]"
    by (simp add: prediction_page_def process_start_def load_model_def
          cache_resource_def load_model_body_def MODEL_PATH_def path_join_def)
  from r p h m show ?thesis by blast
qed

subsection \<open>The cache of the loaders\<close>

lemma cache_inv_load_model: "cache_inv b w \<Longrightarrow> cache_inv b (snd (load_model b w))"
proof (cases "model_cache w")
  case (Some m)
  assume "cache_inv b w"
  with load_model_cached [OF Some] show ?thesis by simp
next
  case None
  assume inv: "cache_inv b w"
  show ?thesis
  proof (cases "model_pkl w")
    case absent: None
    from inv show ?thesis
      unfolding load_model_absent [OF None absent]
      by (simp add: cache_inv_def loads_of_def)
  next
    case (Some m)
    from inv None show ?thesis
      unfolding load_model_present [OF None Some]
      by (simp add: cache_inv_def loads_of_def paths_distinct paths_distinct [symmetric])
  qed
qed

lemma cache_inv_load_encoders: "cache_inv b w \<Longrightarrow> cache_inv b (snd (load_encoders b w))"
proof (cases "encoders_cache w")
  case (Some e)
  assume "cache_inv b w"
  with load_encoders_cached [OF Some] show ?thesis by simp
next
  case None
  assume inv: "cache_inv b w"
  show ?thesis
  proof (cases "encoders_pkl w")
    case absent: None
    from inv show ?thesis
      unfolding load_encoders_absent [OF None absent]
      by (simp add: cache_inv_def loads_of_def)
  next
    case (Some e)
    from inv None show ?thesis
      unfolding load_encoders_present [OF None Some]
      by (simp add: cache_inv_def loads_of_def paths_distinct paths_distinct [symmetric])
  qed
qed

lemma cache_inv_load_defaults: "cache_inv b w \<Longrightarrow> cache_inv b (snd (load_defaults b w))"
proof (cases "defaults_cache w")
  case (Some d)
  assume "cache_inv b w"
  with load_defaults_cached [OF Some] show ?thesis by simp
next
  case None
  assume inv: "cache_inv b w"
  show ?thesis
  proof (cases "defaults_pkl w")
    case absent: None
    from inv show ?thesis
      unfolding load_defaults_absent [OF None absent]
      by (simp add: cache_inv_def loads_of_def)
  next
    case (Some d)
    from inv None show ?thesis
      unfolding load_defaults_present [OF None Some]
      by (simp add: cache_inv_def loads_of_def paths_distinct paths_distinct [symmetric])
  qed
qed

lemma cache_inv_exec: "cache_inv b w \<Longrightarrow> cache_inv b (exec b a w)"
proof (cases a)
  case Call_load_model
  assume "cache_inv b w"
  then show ?thesis unfolding Call_load_model exec.simps by (rule cache_inv_load_model)
next
  case Call_load_encoders
  assume "cache_inv b w"
  then show ?thesis unfolding Call_load_encoders exec.simps by (rule cache_inv_load_encoders)
next
  case Call_load_defaults
  assume "cache_inv b w"
  then show ?thesis unfolding Call_load_defaults exec.simps by (rule cache_inv_load_defaults)
next
  case (Write_model f)
  assume "cache_inv b w"
  then show ?thesis by (simp add: Write_model cache_inv_def loads_of_def)
next
  case (Write_encoders f)
  assume "cache_inv b w"
  then show ?thesis by (simp add: Write_encoders cache_inv_def loads_of_def)
next
  case (Write_defaults f)
  assume "cache_inv b w"
  then show ?thesis by (simp add: Write_defaults cache_inv_def loads_of_def)
qed

lemma cache_inv_run: "cache_inv b w \<Longrightarrow> cache_inv b (run_actions b acts w)"
  unfolding run_actions_def
  by (induction acts arbitrary: w) (simp_all add: cache_inv_exec)

lemma cache_inv_start: "cache_inv b (process_start m e d)"
  by (simp add: cache_inv_def loads_of_def process_start_def)

lemma cache_inv_at_most_once:
  assumes "cache_inv b w"
  shows "loads_of (MODEL_PATH b) w \<le> 1 \<and> loads_of (ENCODER_PATH b) w \<le> 1
       \<and> loads_of (DEFAULT_PATH b) w \<le> 1"
proof -
  have "(if c then 0 else 1) \<le> (1::nat)" for c by simp
  with assms show ?thesis
    unfolding cache_inv_def by (meson order_trans)
qed

text \<open>A cached object stays cached.\<close>

lemma model_cache_exec: "model_cache w = Some m \<Longrightarrow> model_cache (exec b a w) = Some m"
proof (cases a)
  case Call_load_model
  assume "model_cache w = Some m"
  then show ?thesis by (simp add: Call_load_model load_model_cached)
next
  case Call_load_encoders
  assume c: "model_cache w = Some m"
  then show ?thesis
    by (cases "encoders_cache w"; cases "encoders_pkl w")
       (simp_all add: Call_load_encoders load_encoders_cached load_encoders_absent
          load_encoders_present)
next
  case Call_load_defaults
  assume c: "model_cache w = Some m"
  then show ?thesis
    by (cases "defaults_cache w"; cases "defaults_pkl w")
       (simp_all add: Call_load_defaults load_defaults_cached load_defaults_absent
          load_defaults_present)
qed simp_all

lemma encoders_cache_exec:
  "encoders_cache w = Some e \<Longrightarrow> encoders_cache (exec b a w) = Some e"
proof (cases a)
  case Call_load_encoders
  assume "encoders_cache w = Some e"
  then show ?thesis by (simp add: Call_load_encoders load_encoders_cached)
next
  case Call_load_model
  assume c: "encoders_cache w = Some e"
  then show ?thesis
    by (cases "model_cache w"; cases "model_pkl w")
       (simp_all add: Call_load_model load_model_cached load_model_absent load_model_present)
next
  case Call_load_defaults
  assume c: "encoders_cache w = Some e"
  then show ?thesis
    by (cases "defaults_cache w"; cases "defaults_pkl w")
       (simp_all add: Call_load_defaults load_defaults_cached load_defaults_absent
          load_defaults_present)
qed simp_all

lemma defaults_cache_exec:
  "defaults_cache w = Some d \<Longrightarrow> defaults_cache (exec b a w) = Some d"
proof (cases a)
  case Call_load_defaults
  assume "defaults_cache w = Some d"
  then show ?thesis by (simp add: Call_load_defaults load_defaults_cached)
next
  case Call_load_model
  assume c: "defaults_cache w = Some d"
  then show ?thesis
    by (cases "model_cache w"; cases "model_pkl w")
       (simp_all add: Call_load_model load_model_cached load_model_absent load_model_present)
next
  case Call_load_encoders
  assume c: "defaults_cache w = Some d"
  then show ?thesis
    by (cases "encoders_cache w"; cases "encoders_pkl w")
       (simp_all add: Call_load_encoders load_encoders_cached load_encoders_absent
          load_encoders_present)
qed simp_all

lemma model_cache_run: "model_cache w = Some m \<Longrightarrow> model_cache (run_actions b acts w) = Some m"
  unfolding run_actions_def
  by (induction acts arbitrary: w) (simp_all add: model_cache_exec)

lemma encoders_cache_run:
  "encoders_cache w = Some e \<Longrightarrow> encoders_cache (run_actions b acts w) = Some e"
  unfolding run_actions_def
  by (induction acts arbitrary: w) (simp_all add: encoders_cache_exec)

lemma defaults_cache_run:
  "defaults_cache w = Some d \<Longrightarrow> defaults_cache (run_actions b acts w) = Some d"
  unfolding run_actions_def
  by (induction acts arbitrary: w) (simp_all add: defaults_cache_exec)

lemma load_model_returns_cached:
  "fst (load_model b w) = Return m \<Longrightarrow> model_cache (snd (load_model b w)) = Some m"
  by (cases "model_cache w"; cases "model_pkl w")
     (simp_all add: load_model_cached load_model_absent load_model_present)

lemma load_encoders_returns_cached:
  "fst (load_encoders b w) = Return e \<Longrightarrow> encoders_cache (snd (load_encoders b w)) = Some e"
  by (cases "encoders_cache w"; cases "encoders_pkl w")
     (simp_all add: load_encoders_cached load_encoders_absent load_encoders_present)

lemma load_defaults_returns_cached:
  "fst (load_defaults b w) = Return d \<Longrightarrow> defaults_cache (snd (load_defaults b w)) = Some d"
  by (cases "defaults_cache w"; cases "defaults_pkl w")
     (simp_all add: load_defaults_cached load_defaults_absent load_defaults_present)

text \<open>
  Claim C6, as amended. Whatever the interface calls and whatever happens to the files
  during the life of the process, each artifact file is deserialized at most once; and once
  a call of a loader has returned an artifact, every later call of that loader returns the
  same object and changes nothing: it reads no file and deserializes nothing.
\<close>

theorem artifacts_loaded_at_most_once:
  "loads_of (MODEL_PATH b) (run_actions b acts (process_start m e d)) \<le> 1
   \<and> loads_of (ENCODER_PATH b) (run_actions b acts (process_start m e d)) \<le> 1
   \<and> loads_of (DEFAULT_PATH b) (run_actions b acts (process_start m e d)) \<le> 1
   \<and> (fst (load_model b w) = Return m' \<longrightarrow>
        load_model b (run_actions b later (snd (load_model b w)))
          = (Return m', run_actions b later (snd (load_model b w))))
   \<and> (fst (load_encoders b w) = Return e' \<longrightarrow>
        load_encoders b (run_actions b later (snd (load_encoders b w)))
          = (Return e', run_actions b later (snd (load_encoders b w))))
   \<and> (fst (load_defaults b w) = Return d' \<longrightarrow>
        load_defaults b (run_actions b later (snd (load_defaults b w)))
          = (Return d', run_actions b later (snd (load_defaults b w))))"
proof -
  have once: "loads_of (MODEL_PATH b) (run_actions b acts (process_start m e d)) \<le> 1
      \<and> loads_of (ENCODER_PATH b) (run_actions b acts (process_start m e d)) \<le> 1
      \<and> loads_of (DEFAULT_PATH b) (run_actions b acts (process_start m e d)) \<le> 1"
    by (rule cache_inv_at_most_once) (rule cache_inv_run, rule cache_inv_start)
  have mo: "load_model b (run_actions b later (snd (load_model b w)))
          = (Return m', run_actions b later (snd (load_model b w)))"
    if "fst (load_model b w) = Return m'"
    by (rule load_model_cached, rule model_cache_run, rule load_model_returns_cached) (rule that)
  have en: "load_encoders b (run_actions b later (snd (load_encoders b w)))
          = (Return e', run_actions b later (snd (load_encoders b w)))"
    if "fst (load_encoders b w) = Return e'"
    by (rule load_encoders_cached, rule encoders_cache_run, rule load_encoders_returns_cached)
       (rule that)
  have de: "load_defaults b (run_actions b later (snd (load_defaults b w)))
          = (Return d', run_actions b later (snd (load_defaults b w)))"
    if "fst (load_defaults b w) = Return d'"
    by (rule load_defaults_cached, rule defaults_cache_run, rule load_defaults_returns_cached)
       (rule that)
  from once mo en de show ?thesis by blast
qed

theorem artifacts_loaded_at_most_once_witness:
  "fst (load_model ''/app''
          (process_start (Some example_model) (Some example_encoders) (Some [(''pop'', CInt 100)])))
     = Return example_model
   \<and> fst (load_encoders ''/app''
          (process_start (Some example_model) (Some example_encoders) (Some [(''pop'', CInt 100)])))
     = Return example_encoders
   \<and> fst (load_defaults ''/app''
          (process_start (Some example_model) (Some example_encoders) (Some [(''pop'', CInt 100)])))
     = Return [(''pop'', CInt 100)]
   \<and> fst (load_defaults ''/app''
          (run_actions ''/app'' [Write_defaults None, Call_load_defaults]
             (snd (load_defaults ''/app''
                (process_start (Some example_model) (Some example_encoders)
                   (Some [(''pop'', CInt 100)]))))))
     = Return [(''pop'', CInt 100)]
   \<and> loads_of (DEFAULT_PATH ''/app'')
        (run_actions ''/app'' [Call_load_defaults, Write_defaults (Some []), Call_load_defaults]
           (process_start (Some example_model) (Some example_encoders)
              (Some [(''pop'', CInt 100)]))) \<le> 1"
proof -
  let ?w = "process_start (Some example_model) (Some example_encoders) (Some [(''pop'', CInt 100)])"
  have hm: "fst (load_model ''/app'' ?w) = Return example_model"
    by (simp add: process_start_def load_model_present)
  have he: "fst (load_encoders ''/app'' ?w) = Return example_encoders"
    by (simp add: process_start_def load_encoders_present)
  have hd: "fst (load_defaults ''/app'' ?w) = Return [(''pop'', CInt 100)]"
    by (simp add: process_start_def load_defaults_present)
  note inst = artifacts_loaded_at_most_once
    [where b = "''/app''" and w = ?w and m' = example_model and e' = example_encoders
       and d' = "[(''pop'', CInt 100)]"
       and later = "[Write_defaults None, Call_load_defaults]"
       and acts = "[Call_load_defaults, Write_defaults (Some []), Call_load_defaults]"
       and m = "Some example_model" and e = "Some example_encoders"
       and d = "Some [(''pop'', CInt 100)]"]
  from inst hd have
    "load_defaults ''/app''
       (run_actions ''/app'' [Write_defaults None, Call_load_defaults] (snd (load_defaults ''/app'' ?w)))
     = (Return [(''pop'', CInt 100)],
        run_actions ''/app'' [Write_defaults None, Call_load_defaults] (snd (load_defaults ''/app'' ?w)))"
    by blast
  then have again: "fst (load_defaults ''/app''
       (run_actions ''/app'' [Write_defaults None, Call_load_defaults] (snd (load_defaults ''/app'' ?w))))
     = Return [(''pop'', CInt 100)]"
    by simp
  from inst have once: "loads_of (DEFAULT_PATH ''/app'')
        (run_actions ''/app'' [Call_load_defaults, Write_defaults (Some []), Call_load_defaults] ?w) \<le> 1"
    by blast
  from hm he hd again once show ?thesis by blast
qed

text \<open>
  Claim C6 as stated says that every call after the first returns the cached object and
  reads nothing. When the file is absent the first call stops the page and caches nothing:
  the second call checks the path again and stops again.
\<close>

theorem second_call_not_cached_after_stop:
  "fst (load_model ''/app'' (process_start None None None)) = Stop
   \<and> load_model ''/app'' (snd (load_model ''/app'' (process_start None None None)))
       = (Stop,
          \<lparr>model_pkl = None, encoders_pkl = None, defaults_pkl = None,
           model_cache = None, encoders_cache = None, defaults_cache = None,
           io_log = [Os_path_exists ''/app/crime_model.pkl'',
                     Os_path_exists ''/app/crime_model.pkl''],
           screen = [St_error (warning_sign @ '' Model file not found at:'' @ [CHR 0x0A]
                                 @ ''/app/crime_model.pkl''),
                     St_error (warning_sign @ '' Model file not found at:'' @ [CHR 0x0A]
                                 @ ''/app/crime_model.pkl'')]\<rparr>)"
  by (simp add: process_start_def load_model_def cache_resource_def load_model_body_def
        MODEL_PATH_def path_join_def)

end
